theory Spec2Isabelle
  imports Complex_Main "HOL-Library.AList"
begin

section \<open>Numbers, dates and Python exceptions\<close>

text \<open>
  Python floats are modelled as rationals: every finite float is a rational, and the
  arithmetic of the model is exact where the float arithmetic rounds. The exceptions the
  modelled code can meet are values of \<open>py_error\<close>.
\<close>

datatype py_error = ZeroDivisionError | KeyError | ValueError

text \<open>
  Python's \<open>round(x, ndigits)\<close>: the decimal with \<open>ndigits\<close> places nearest to
  \<open>x\<close>, a tie going to the even last digit.
\<close>

definition round_half_even :: "rat \<Rightarrow> int" where
  "round_half_even x =
     (let f = \<lfloor>x\<rfloor>; d = x - of_int f
      in if d < 1 / 2 then f
         else if 1 / 2 < d then f + 1
         else if even f then f else f + 1)"

definition py_round :: "rat \<Rightarrow> nat \<Rightarrow> rat" where
  "py_round x ndigits = of_int (round_half_even (x * 10 ^ ndigits)) / 10 ^ ndigits"

text \<open>Python's \<open>int(x)\<close> on a float truncates towards zero.\<close>

definition py_int :: "rat \<Rightarrow> int" where
  "py_int x = (if 0 \<le> x then \<lfloor>x\<rfloor> else \<lceil>x\<rceil>)"

text \<open>A calendar date as (year, month, day); a \<open>datetime\<close> as microseconds since the epoch.\<close>

type_synonym date = "int \<times> nat \<times> nat"

type_synonym datetime = int

definition total_seconds :: "int \<Rightarrow> rat" where
  "total_seconds delta = of_int delta / 1000000"

section \<open>routes.py: the trend calculator\<close>




section \<open>fred_service.py: the year-over-year calculator\<close>

text \<open>
  A FRED observation is a dictionary with the keys \<open>date\<close> and \<open>value\<close>, both
  strings. The model keeps what the code can tell apart: for the value, what
  \<open>float(obs['value'])\<close> does (the key is absent: KeyError; the string is no number, as
  FRED's "." for a missing value: ValueError; or a number), and for the date, what
  \<open>obs['date']\<close> and \<open>strptime\<close> do with it.
\<close>

datatype value_field = NoValue | BadValue | Number rat

datatype date_field = NoDate | BadDate | Date date

record observation =
  obs_date :: date_field
  obs_value :: value_field

text \<open>
  One pass of the loop body of \<open>calculate_cpi_yoy_change\<close>. \<open>Inr None\<close> is the
  \<open>continue\<close> of the handler for ValueError and KeyError, \<open>Inl e\<close> an exception the
  handler does not catch. The order is the source's: both values are read, then the
  division, then \<open>current['date']\<close>.
\<close>

definition yoy_point :: "observation \<Rightarrow> observation \<Rightarrow> py_error + observation option" where
  "yoy_point current year_ago =
     (case obs_value current of
        NoValue \<Rightarrow> Inr None
      | BadValue \<Rightarrow> Inr None
      | Number current_value \<Rightarrow>
          (case obs_value year_ago of
             NoValue \<Rightarrow> Inr None
           | BadValue \<Rightarrow> Inr None
           | Number year_ago_value \<Rightarrow>
               if year_ago_value = 0 then Inl ZeroDivisionError
               else
                 (let yoy_change = ((current_value - year_ago_value) / year_ago_value) * 100
                  in case obs_date current of
                       NoDate \<Rightarrow> Inr None
                     | d \<Rightarrow> Inr (Some \<lparr>obs_date = d,
                                         obs_value = Number (py_round yoy_change 2)\<rparr>))))"

fun yoy_loop :: "observation list \<Rightarrow> nat list \<Rightarrow> observation list \<Rightarrow> py_error + observation list" where
  "yoy_loop observations [] result = Inr result"
| "yoy_loop observations (i # is) result =
     (case yoy_point (observations ! i) (observations ! (i - 12)) of
        Inl e \<Rightarrow> Inl e
      | Inr None \<Rightarrow> yoy_loop observations is result
      | Inr (Some p) \<Rightarrow> yoy_loop observations is (result @ [p]))"

definition calculate_cpi_yoy_change :: "observation list \<Rightarrow> py_error + observation list" where
  "calculate_cpi_yoy_change observations =
     (if length observations < 12 then Inr []
      else yoy_loop observations [12 ..< length observations] [])"

section \<open>database/models.py: the tables\<close>

text \<open>
  The rows of the three tables the modelled code writes. Every model class has the columns
  \<open>date\<close>, \<open>created_at\<close> and \<open>updated_at\<close>; the surrogate key \<open>id\<close> is
  assigned by the database engine and never read by the code, so it is left out. A nullable
  column is an option. A table is the list of its rows in the order they were added. The
  calls of the session (query, add, commit, rollback) are taken to succeed.
\<close>

record row_base =
  date :: date
  created_at :: datetime
  updated_at :: datetime

record economic_indicator = row_base +
  global_gdp_growth :: "rat option"
  us_gdp_growth :: "rat option"
  federal_funds_rate :: "rat option"
  inflation_rate :: "rat option"

record stock_data = row_base +
  open_price :: "rat option"
  close_price :: "rat option"
  high_price :: "rat option"
  low_price :: "rat option"
  volume :: "int option"
  market_cap :: "rat option"

text \<open>The four indicator columns, as the keys of the per-date dictionaries name them.\<close>

datatype field_name = GlobalGdpGrowth | UsGdpGrowth | FederalFundsRate | InflationRate

fun getattr :: "economic_indicator \<Rightarrow> field_name \<Rightarrow> rat option" where
  "getattr r GlobalGdpGrowth = global_gdp_growth r"
| "getattr r UsGdpGrowth = us_gdp_growth r"
| "getattr r FederalFundsRate = federal_funds_rate r"
| "getattr r InflationRate = inflation_rate r"

fun setattr :: "economic_indicator \<Rightarrow> field_name \<Rightarrow> rat \<Rightarrow> economic_indicator" where
  "setattr r GlobalGdpGrowth v = r\<lparr>global_gdp_growth := Some v\<rparr>"
| "setattr r UsGdpGrowth v = r\<lparr>us_gdp_growth := Some v\<rparr>"
| "setattr r FederalFundsRate v = r\<lparr>federal_funds_rate := Some v\<rparr>"
| "setattr r InflationRate v = r\<lparr>inflation_rate := Some v\<rparr>"

section \<open>data_aggregator.py: the results of a run\<close>

text \<open>
  A step returns \<open>{'status': 'success', 'count': n}\<close> or
  \<open>{'status': 'error', 'message': m}\<close>. The dictionary \<open>results\<close> of
  \<open>update_all_data\<close> holds one entry per step (\<open>None\<close> until the step has returned)
  and the list \<open>errors\<close>.
\<close>

datatype step_result = StepSuccess nat | StepError string

datatype overall_status = Success | Partial | Failed

record results_dict =
  economic_indicators :: "step_result option"
  stock_data :: "step_result option"
  errors :: "string list"

record update_log =
  log_timestamp :: datetime
  log_update_type :: string
  log_status :: overall_status
  log_sources_updated :: results_dict
  log_errors :: "string list option"
  log_duration_seconds :: rat

record update_result =
  status :: overall_status
  duration :: rat
  results :: results_dict
  timestamp :: datetime

record db =
  economic_indicators_table :: "economic_indicator list"
  stock_data_table :: "stock_data list"
  update_logs_table :: "update_log list"

fun str :: "py_error \<Rightarrow> string" where
  "str ZeroDivisionError = ''float division by zero''"
| "str KeyError = ''KeyError''"
| "str ValueError = ''ValueError''"

section \<open>data_aggregator.py: the per-date accumulator\<close>

text \<open>
  \<open>data_by_date\<close> is a dictionary from dates to dictionaries from column names to
  values. Python dictionaries keep insertion order and the upsert loop iterates in that
  order, so both are association lists with distinct keys: \<open>AList.update\<close> overwrites a
  present key in place and appends an absent one.
\<close>

type_synonym values_dict = "(field_name \<times> rat) list"

type_synonym data_by_date = "(date \<times> values_dict) list"

text \<open>
  The two statements
  \<^verbatim>\<open>if date not in data_by_date: data_by_date[date] = {}\<close> and
  \<^verbatim>\<open>data_by_date[date][key] = value\<close>.
\<close>

definition set_item :: "date \<Rightarrow> field_name \<Rightarrow> rat \<Rightarrow> data_by_date \<Rightarrow> data_by_date" where
  "set_item d key v data =
     (let data' = (if map_of data d = None then AList.update d [] data else data)
      in AList.map_entry d (AList.update key v) data')"

text \<open>The slice \<open>xs[-n:]\<close>: the last \<open>n\<close> elements, all of them when there are fewer.\<close>

definition last_n :: "nat \<Rightarrow> 'a list \<Rightarrow> 'a list" where
  "last_n n xs = drop (length xs - n) xs"

text \<open>
  The loops over the federal funds rate, the inflation data and the GDP data are the same
  loop with a different key. An observation whose date or value does not parse raises
  ValueError or KeyError inside the \<open>try\<close> and is skipped.
\<close>

fun process_observations :: "field_name \<Rightarrow> observation list \<Rightarrow> data_by_date \<Rightarrow> data_by_date" where
  "process_observations key [] data = data"
| "process_observations key (obs # rest) data =
     (case obs_date obs of
        Date d \<Rightarrow>
          (case obs_value obs of
             Number v \<Rightarrow> process_observations key rest (set_item d key v data)
           | _ \<Rightarrow> process_observations key rest data)
      | _ \<Rightarrow> process_observations key rest data)"

text \<open>
  An annual point of the World Bank adapter, which builds every point itself with an
  integer year and a rounded float value.
\<close>

record gdp_point =
  year :: int
  gdp_value :: rat

text \<open>
  \<open>sorted(global_gdp, key=lambda x: x['year'], reverse=True)\<close> is stable: among
  points of one year the original order is kept. That is a stable ascending sort on the
  negated year.
\<close>

definition latest_gdp_value :: "gdp_point list \<Rightarrow> rat option" where
  "latest_gdp_value global_gdp =
     (if global_gdp \<noteq> [] then
        (let sorted_gdp = sort_key (\<lambda>x. - year x) global_gdp
         in case sorted_gdp of [] \<Rightarrow> None | first # _ \<Rightarrow> Some (gdp_value first))
      else None)"

text \<open>
  \<open>datetime(item['year'], 12, 31)\<close> raises ValueError, caught by the loop, when the
  year is outside 1..9999.
\<close>

fun add_annual_records :: "gdp_point list \<Rightarrow> data_by_date \<Rightarrow> data_by_date" where
  "add_annual_records [] data = data"
| "add_annual_records (item # rest) data =
     (if 1 \<le> year item \<and> year item \<le> 9999
      then add_annual_records rest
             (set_item (year item, 12, 31) GlobalGdpGrowth (gdp_value item) data)
      else add_annual_records rest data)"

definition forward_fill :: "rat option \<Rightarrow> data_by_date \<Rightarrow> data_by_date" where
  "forward_fill latest data =
     (case latest of
        None \<Rightarrow> data
      | Some v \<Rightarrow>
          map (\<lambda>(d, vals). if map_of vals GlobalGdpGrowth = None
                            then (d, AList.update GlobalGdpGrowth v vals)
                            else (d, vals)) data)"

text \<open>
  The accumulator after the four loops that read the fetched series, and the accumulator
  as it stands when the upsert loop starts, after the forward fill.
\<close>

definition collect_points ::
  "observation list \<Rightarrow> observation list \<Rightarrow> observation list \<Rightarrow> gdp_point list \<Rightarrow> data_by_date" where
  "collect_points fed_rates inflation_data gdp_data global_gdp =
     (let data1 = process_observations FederalFundsRate (last_n 12 fed_rates) [];
          data2 = process_observations InflationRate (last_n 12 inflation_data) data1;
          data3 = process_observations UsGdpGrowth (last_n 8 gdp_data) data2
      in add_annual_records (last_n 5 global_gdp) data3)"

definition build_data_by_date ::
  "observation list \<Rightarrow> observation list \<Rightarrow> observation list \<Rightarrow> gdp_point list \<Rightarrow> data_by_date" where
  "build_data_by_date fed_rates inflation_data gdp_data global_gdp =
     forward_fill (latest_gdp_value global_gdp)
       (collect_points fed_rates inflation_data gdp_data global_gdp)"

text \<open>
  Reading the accumulator: \<open>data_by_date[d][key]\<close>, and \<open>None\<close> when the date or the
  key is absent.
\<close>

definition lookup_value :: "data_by_date \<Rightarrow> date \<Rightarrow> field_name \<Rightarrow> rat option" where
  "lookup_value data d key =
     (case map_of data d of None \<Rightarrow> None | Some vals \<Rightarrow> map_of vals key)"

section \<open>data_aggregator.py: the indicator upsert\<close>

text \<open>
  \<open>for key, value in values.items(): setattr(existing, key, value)\<close>, and the same
  assignments made by the constructor call \<open>EconomicIndicator(date=date, **values)\<close>
  on a row whose indicator columns are all null. All clock reads of one run are taken to
  return the same instant \<open>now\<close>.
\<close>

definition set_values :: "values_dict \<Rightarrow> economic_indicator \<Rightarrow> economic_indicator" where
  "set_values vals r = fold (\<lambda>(key, v) r'. setattr r' key v) vals r"

definition new_indicator :: "datetime \<Rightarrow> date \<Rightarrow> values_dict \<Rightarrow> economic_indicator" where
  "new_indicator now d vals =
     set_values vals
       \<lparr>date = d, created_at = now, updated_at = now,
        global_gdp_growth = None, us_gdp_growth = None,
        federal_funds_rate = None, inflation_rate = None\<rparr>"

text \<open>
  One pass of the upsert loop: the query takes the first row of the date; a row found is
  updated where it stands, otherwise a new row is added.
\<close>

fun upsert_indicator ::
  "datetime \<Rightarrow> date \<Rightarrow> values_dict \<Rightarrow> economic_indicator list \<Rightarrow> economic_indicator list" where
  "upsert_indicator now d vals [] = [new_indicator now d vals]"
| "upsert_indicator now d vals (existing # rows) =
     (if date existing = d
      then (set_values vals existing)\<lparr>updated_at := now\<rparr> # rows
      else existing # upsert_indicator now d vals rows)"

fun upsert_loop ::
  "datetime \<Rightarrow> data_by_date \<Rightarrow> economic_indicator list \<Rightarrow> nat \<Rightarrow> economic_indicator list \<times> nat" where
  "upsert_loop now [] rows updates_count = (rows, updates_count)"
| "upsert_loop now ((d, vals) # rest) rows updates_count =
     upsert_loop now rest (upsert_indicator now d vals rows) (updates_count + 1)"

text \<open>
  The step. The fetched series are its inputs (\<open>us_gdp\<close> is fetched and never used).
  An exception that escapes \<open>calculate_cpi_yoy_change\<close> is caught by the handler of
  the whole body, which rolls back and returns an error status; nothing has been written
  at that point.
\<close>

definition update_economic_indicators ::
  "datetime \<Rightarrow> observation list \<Rightarrow> observation list \<Rightarrow> observation list \<Rightarrow> gdp_point list
     \<Rightarrow> db \<Rightarrow> step_result \<times> db" where
  "update_economic_indicators now fed_rates gdp_data cpi_data global_gdp d =
     (case calculate_cpi_yoy_change cpi_data of
        Inl e \<Rightarrow> (StepError (str e), d)
      | Inr inflation_data \<Rightarrow>
          (let data = build_data_by_date fed_rates inflation_data gdp_data global_gdp;
               (rows, updates_count) = upsert_loop now data (economic_indicators_table d) 0
           in (StepSuccess updates_count, d\<lparr>economic_indicators_table := rows\<rparr>)))"

section \<open>data_aggregator.py: the stock step\<close>

text \<open>
  Both stock adapters build every item with all six keys and numeric values, so only the
  date string can fail to parse.
\<close>

record ohlcv =
  item_date :: date_field
  item_open :: rat
  item_high :: rat
  item_low :: rat
  item_close :: rat
  item_volume :: int

definition shares_outstanding :: rat where
  "shares_outstanding = 246 / 10"

fun upsert_stock :: "datetime \<Rightarrow> date \<Rightarrow> ohlcv \<Rightarrow> stock_data list \<Rightarrow> stock_data list" where
  "upsert_stock now d item [] =
     [\<lparr>date = d, created_at = now, updated_at = now,
       open_price = Some (item_open item), close_price = Some (item_close item),
       high_price = Some (item_high item), low_price = Some (item_low item),
       volume = Some (item_volume item),
       market_cap = Some (py_round (item_close item * shares_outstanding) 2)\<rparr>]"
| "upsert_stock now d item (existing # rows) =
     (if date existing = d
      then existing\<lparr>open_price := Some (item_open item), close_price := Some (item_close item),
                    high_price := Some (item_high item), low_price := Some (item_low item),
                    volume := Some (item_volume item),
                    market_cap := Some (py_round (item_close item * shares_outstanding) 2),
                    updated_at := now\<rparr> # rows
      else existing # upsert_stock now d item rows)"

fun stock_loop :: "datetime \<Rightarrow> ohlcv list \<Rightarrow> stock_data list \<Rightarrow> nat \<Rightarrow> stock_data list \<times> nat" where
  "stock_loop now [] rows updates_count = (rows, updates_count)"
| "stock_loop now (item # rest) rows updates_count =
     (case item_date item of
        Date d \<Rightarrow> stock_loop now rest (upsert_stock now d item rows) (updates_count + 1)
      | _ \<Rightarrow> stock_loop now rest rows updates_count)"

definition update_stock_data :: "datetime \<Rightarrow> ohlcv list \<Rightarrow> db \<Rightarrow> step_result \<times> db" where
  "update_stock_data now stock_items d =
     (if stock_items = []
      then (StepError ''No stock data available from Alpha Vantage'', d)
      else
        (let (rows, updates_count) = stock_loop now stock_items (stock_data_table d) 0
         in (StepSuccess updates_count, d\<lparr>stock_data_table := rows\<rparr>)))"

section \<open>data_aggregator.py: the orchestrator\<close>

text \<open>
  \<open>update_all_data\<close> calls the two steps, each inside its own \<open>try\<close>. A step call
  either returns its result dictionary (\<open>Inr\<close>) or raises an exception whose text is
  recorded in \<open>errors\<close> (\<open>Inl\<close>). The steps are parameters here, so that the model
  covers a call that raises; \<open>aggregator_update_all_data\<close> below passes the two methods
  of the aggregator. \<open>duration\<close> is the wall-clock time the run measured.
\<close>

type_synonym step = "db \<Rightarrow> (string + step_result) \<times> db"

definition reported_success :: "step_result option \<Rightarrow> bool" where
  "reported_success r = (case r of Some (StepSuccess n) \<Rightarrow> True | _ \<Rightarrow> False)"

definition overall :: "results_dict \<Rightarrow> overall_status" where
  "overall res =
     (if errors res \<noteq> [] then
        (if reported_success (economic_indicators res) \<or> reported_success (stock_data res)
         then Partial else Failed)
      else Success)"

definition update_all_data ::
  "step \<Rightarrow> step \<Rightarrow> string \<Rightarrow> datetime \<Rightarrow> rat \<Rightarrow> db \<Rightarrow> update_result \<times> db" where
  "update_all_data economic_step stock_step update_type now run_duration d =
     (let results0 = \<lparr>economic_indicators = None, stock_data = None, errors = []\<rparr>;
          (r1, d1) = economic_step d;
          results1 = (case r1 of
                        Inr r \<Rightarrow> results0\<lparr>economic_indicators := Some r\<rparr>
                      | Inl e \<Rightarrow> results0\<lparr>errors := errors results0 @ [''Economic indicators: '' @ e]\<rparr>);
          (r2, d2) = stock_step d1;
          results2 = (case r2 of
                        Inr r \<Rightarrow> results1\<lparr>stock_data := Some r\<rparr>
                      | Inl e \<Rightarrow> results1\<lparr>errors := errors results1 @ [''Stock data: '' @ e]\<rparr>);
          st = overall results2;
          entry = \<lparr>log_timestamp = now, log_update_type = update_type, log_status = st,
                   log_sources_updated = results2,
                   log_errors = (if errors results2 \<noteq> [] then Some (errors results2) else None),
                   log_duration_seconds = py_round run_duration 2\<rparr>
      in (\<lparr>status = st, duration = run_duration, results = results2, timestamp = now\<rparr>,
          d2\<lparr>update_logs_table := update_logs_table d2 @ [entry]\<rparr>))"

text \<open>The fetched data of one run, and the orchestrator with the aggregator's own steps.\<close>

record fetched =
  fed_rates :: "observation list"
  gdp_data :: "observation list"
  cpi_data :: "observation list"
  global_gdp :: "gdp_point list"
  stock_items :: "ohlcv list"

definition aggregator_update_all_data ::
  "fetched \<Rightarrow> string \<Rightarrow> datetime \<Rightarrow> rat \<Rightarrow> db \<Rightarrow> update_result \<times> db" where
  "aggregator_update_all_data f update_type now run_duration d =
     update_all_data
       (\<lambda>d'. case update_economic_indicators now (fed_rates f) (gdp_data f) (cpi_data f)
                     (global_gdp f) d' of (r, d'') \<Rightarrow> (Inr r, d''))
       (\<lambda>d'. case update_stock_data now (stock_items f) d' of (r, d'') \<Rightarrow> (Inr r, d''))
       update_type now run_duration d"

section \<open>routes.py: the manual update\<close>

text \<open>
  The module variable \<open>last_manual_update\<close> and the database are the state. A request
  carries the flag \<open>force\<close>. \<open>now_check\<close> is the clock read of the cooldown check and
  \<open>now_update\<close> the later one stored as the new timestamp. \<open>run\<close> is the call of the
  orchestrator: it returns a result or raises (\<open>Inl\<close>). The three responses are the
  rejection with status 429, whose text carries the number of seconds to wait, the
  response of a completed update, and the error with status 500.
\<close>

definition UPDATE_COOLDOWN_SECONDS :: rat where
  "UPDATE_COOLDOWN_SECONDS = 30"

record app_state =
  last_manual_update :: "datetime option"
  database :: db

datatype http_response = HTTP_429 int | HTTP_200 update_result | HTTP_500 string

definition trigger_manual_update ::
  "(db \<Rightarrow> (string + update_result) \<times> db) \<Rightarrow> bool \<Rightarrow> datetime \<Rightarrow> datetime \<Rightarrow> app_state
     \<Rightarrow> http_response \<times> app_state" where
  "trigger_manual_update run force now_check now_update s =
     (let rejected =
            (case last_manual_update s of
               None \<Rightarrow> None
             | Some last_update \<Rightarrow>
                 if \<not> force then
                   (let elapsed = total_seconds (now_check - last_update)
                    in if elapsed < UPDATE_COOLDOWN_SECONDS
                       then Some (py_int (UPDATE_COOLDOWN_SECONDS - elapsed)) else None)
                 else None)
      in case rejected of
           Some wait \<Rightarrow> (HTTP_429 wait, s)
         | None \<Rightarrow>
             (let s1 = s\<lparr>last_manual_update := Some now_update\<rparr>;
                  (r, d') = run (database s1);
                  s2 = s1\<lparr>database := d'\<rparr>
              in case r of
                   Inr result \<Rightarrow> (HTTP_200 result, s2)
                 | Inl e \<Rightarrow> (HTTP_500 e, s2)))"

text \<open>
  The call \<open>data_aggregator.update_all_data(db, update_type='manual')\<close> of the route,
  with the data the adapters fetch during it.
\<close>

definition manual_update :: "fetched \<Rightarrow> datetime \<Rightarrow> rat \<Rightarrow> db \<Rightarrow> (string + update_result) \<times> db" where
  "manual_update f now run_duration d =
     (case aggregator_update_all_data f ''manual'' now run_duration d of
        (r, d') \<Rightarrow> (Inr r, d'))"

text \<open>A response is a rejection when it is the one with status 429.\<close>

definition rejected :: "http_response \<Rightarrow> bool" where
  "rejected r = (case r of HTTP_429 w \<Rightarrow> True | _ \<Rightarrow> False)"

text \<open>
  The state of a freshly started application, and a run in which every adapter returns
  the empty list.
\<close>

definition empty_db :: db where
  "empty_db = \<lparr>economic_indicators_table = [], stock_data_table = [], update_logs_table = []\<rparr>"

definition fresh_state :: app_state where
  "fresh_state = \<lparr>last_manual_update = None, database = empty_db\<rparr>"

definition no_data :: fetched where
  "no_data = \<lparr>fed_rates = [], gdp_data = [], cpi_data = [], global_gdp = [], stock_items = []\<rparr>"

text \<open>
  Example data: a stored row of 1 January 2024, a dictionary of incoming values for it,
  two monthly observations of the federal funds rate, and the annual points 2022: 2.5 and
  2023: 3.0 of the specification.
\<close>

definition example_rows :: "economic_indicator list" where
  "example_rows =
     [\<lparr>date = (2024, 1, 1), created_at = 0, updated_at = 0,
       global_gdp_growth = Some 3, us_gdp_growth = None,
       federal_funds_rate = Some 5, inflation_rate = None\<rparr>]"

definition example_values :: values_dict where
  "example_values = [(FederalFundsRate, 11 / 2), (InflationRate, 3)]"

definition example_fed_rates :: "observation list" where
  "example_fed_rates =
     [\<lparr>obs_date = Date (2022, 6, 1), obs_value = Number 5\<rparr>,
      \<lparr>obs_date = Date (2023, 6, 1), obs_value = Number (21 / 4)\<rparr>]"

definition example_global_gdp :: "gdp_point list" where
  "example_global_gdp = [\<lparr>year = 2022, gdp_value = 5 / 2\<rparr>, \<lparr>year = 2023, gdp_value = 3\<rparr>]"

section \<open>The trend calculator\<close>




section \<open>The year-over-year calculator\<close>









text \<open>
  C2. A baseline of zero is not skipped: the division raises ZeroDivisionError, which the
  handler for ValueError and KeyError does not catch, so the whole call fails. Thirteen
  observations, the first with the value 0.
\<close>

theorem calculate_cpi_yoy_change_zero_baseline_raises:
  "calculate_cpi_yoy_change
     (\<lparr>obs_date = Date (2023, 1, 1), obs_value = Number 0\<rparr>
      # map (\<lambda>k. \<lparr>obs_date = Date (2023, k, 1), obs_value = Number 100\<rparr>) [2 ..< 13]
      @ [\<lparr>obs_date = Date (2024, 1, 1), obs_value = Number 110\<rparr>])
   = Inl ZeroDivisionError"
  by code_simp




section \<open>The orchestrator\<close>



text \<open>
  The two methods of the aggregator catch every exception themselves and return a result
  with the status error. Such a result adds nothing to \<open>errors\<close>: with the aggregator's
  own steps the list stays empty and the overall status is success, whatever the two
  results are.
\<close>

lemma aggregator_update_all_data_success:
  "status (fst (aggregator_update_all_data f update_type now run_duration d)) = Success \<and>
   errors (results (fst (aggregator_update_all_data f update_type now run_duration d))) = []"
  by (simp add: aggregator_update_all_data_def update_all_data_def overall_def Let_def
           split: prod.splits)

section \<open>Empty fetched sequences\<close>




section \<open>The manual update\<close>

lemma trigger_rejects:
  "last_manual_update s = Some t \<Longrightarrow> total_seconds (now_check - t) < 30 \<Longrightarrow>
   trigger_manual_update run False now_check now_update s
     = (HTTP_429 (py_int (30 - total_seconds (now_check - t))), s)"
  by (simp add: trigger_manual_update_def UPDATE_COOLDOWN_SECONDS_def Let_def)

lemma trigger_accepted_sets:
  "\<not> rejected (fst (trigger_manual_update run force now_check now_update s)) \<Longrightarrow>
   last_manual_update (snd (trigger_manual_update run force now_check now_update s))
     = Some now_update"
  by (auto simp: trigger_manual_update_def rejected_def Let_def
           split: option.splits prod.splits sum.splits if_splits)

lemma trigger_rejected_keeps:
  "rejected (fst (trigger_manual_update run force now_check now_update s)) \<Longrightarrow>
   snd (trigger_manual_update run force now_check now_update s) = s"
  by (auto simp: trigger_manual_update_def rejected_def Let_def
           split: option.splits prod.splits sum.splits if_splits)

lemma trigger_forced:
  "\<not> rejected (fst (trigger_manual_update run True now_check now_update s))"
  by (auto simp: trigger_manual_update_def rejected_def Let_def
           split: option.splits prod.splits sum.splits)

lemma trigger_fresh:
  "last_manual_update s = None \<Longrightarrow>
   \<not> rejected (fst (trigger_manual_update run force now_check now_update s))"
  by (auto simp: trigger_manual_update_def rejected_def Let_def
           split: option.splits prod.splits sum.splits)

lemma py_int_25: "py_int (30 - total_seconds 5000000) = 25"
  by (simp add: py_int_def total_seconds_def)

text \<open>
  C8, as the code has it. When a manual trigger has been accepted (it was not itself
  rejected) and a second one without the force flag is checked \<open>t\<close> seconds after the
  time the first one stored, with \<open>t\<close> less than 30, the second is rejected with status
  429, the number of seconds to wait being \<open>30 - t\<close> cut to an integer, and the state is
  left as it was; 5 seconds apart the number is 25. A trigger with the force flag is never
  rejected.
\<close>

theorem manual_update_debounce:
  "(\<not> rejected (fst (trigger_manual_update run1 force1 check1 update1 s)) \<and>
    total_seconds (check2 - update1) < 30 \<longrightarrow>
      trigger_manual_update run2 False check2 update2
          (snd (trigger_manual_update run1 force1 check1 update1 s))
        = (HTTP_429 (py_int (30 - total_seconds (check2 - update1))),
           snd (trigger_manual_update run1 force1 check1 update1 s))) \<and>
   (\<not> rejected (fst (trigger_manual_update run1 force1 check1 update1 s)) \<and>
    check2 - update1 = 5000000 \<longrightarrow>
      fst (trigger_manual_update run2 False check2 update2
            (snd (trigger_manual_update run1 force1 check1 update1 s))) = HTTP_429 25) \<and>
   \<not> rejected (fst (trigger_manual_update run3 True check3 update3 s3))"
proof (intro conjI impI)
  assume a: "\<not> rejected (fst (trigger_manual_update run1 force1 check1 update1 s)) \<and>
    total_seconds (check2 - update1) < 30"
  then show "trigger_manual_update run2 False check2 update2
          (snd (trigger_manual_update run1 force1 check1 update1 s))
        = (HTTP_429 (py_int (30 - total_seconds (check2 - update1))),
           snd (trigger_manual_update run1 force1 check1 update1 s))"
    using trigger_rejects [OF trigger_accepted_sets] by blast
next
  assume a: "\<not> rejected (fst (trigger_manual_update run1 force1 check1 update1 s)) \<and>
    check2 - update1 = 5000000"
  then have "total_seconds (check2 - update1) < 30" by (simp add: total_seconds_def)
  with a show "fst (trigger_manual_update run2 False check2 update2
            (snd (trigger_manual_update run1 force1 check1 update1 s))) = HTTP_429 25"
    using trigger_rejects [OF trigger_accepted_sets, of run1 force1 check1 update1 s check2 run2 update2]
      py_int_25 by simp
next
  show "\<not> rejected (fst (trigger_manual_update run3 True check3 update3 s3))"
    by (rule trigger_forced)
qed

text \<open>
  Two triggers 5 seconds apart on a fresh application, the second without the force flag:
  it is rejected with 25 seconds to wait. With the force flag it is accepted.
\<close>

theorem manual_update_debounce_witness:
  "fst (trigger_manual_update (manual_update no_data 5000000 1) False 5000000 5000000
         (snd (trigger_manual_update (manual_update no_data 0 1) False 0 0 fresh_state)))
     = HTTP_429 25 \<and>
   snd (trigger_manual_update (manual_update no_data 5000000 1) False 5000000 5000000
         (snd (trigger_manual_update (manual_update no_data 0 1) False 0 0 fresh_state)))
     = snd (trigger_manual_update (manual_update no_data 0 1) False 0 0 fresh_state) \<and>
   \<not> rejected (fst (trigger_manual_update (manual_update no_data 5000000 1) True 5000000 5000000
         (snd (trigger_manual_update (manual_update no_data 0 1) False 0 0 fresh_state))))"
proof -
  have a: "\<not> rejected (fst (trigger_manual_update (manual_update no_data 0 1) False 0 0 fresh_state))"
    by (rule trigger_fresh) (simp add: fresh_state_def)
  have t: "total_seconds (5000000 - 0) < 30" by (simp add: total_seconds_def)
  have e: "(5000000 :: int) - 0 = 5000000" by simp
  let ?s1 = "snd (trigger_manual_update (manual_update no_data 0 1) False 0 0 fresh_state)"
  let ?run = "manual_update no_data 5000000 1"
  note th = manual_update_debounce [of "manual_update no_data 0 1" False 0 0 fresh_state
        5000000 ?run 5000000 ?run 5000000 5000000 ?s1]
  from th a e have 1: "fst (trigger_manual_update ?run False 5000000 5000000 ?s1) = HTTP_429 25"
    by blast
  from th a t have "trigger_manual_update ?run False 5000000 5000000 ?s1
      = (HTTP_429 (py_int (30 - total_seconds (5000000 - 0))), ?s1)"
    by blast
  then have 2: "snd (trigger_manual_update ?run False 5000000 5000000 ?s1) = ?s1"
    by simp
  from th have 3: "\<not> rejected (fst (trigger_manual_update ?run True 5000000 5000000 ?s1))"
    by blast
  from 1 2 3 show ?thesis by blast
qed

text \<open>
  The claim as stated speaks of every pair of manual triggers. A rejected trigger stores
  no timestamp: after a trigger at 0 s, a trigger at 29 s is rejected, and a trigger at
  31 s, 2 seconds after it and without the force flag, is accepted.
\<close>

theorem manual_update_debounce_counterexample:
  "rejected (fst (trigger_manual_update (manual_update no_data 29000000 1) False 29000000 29000000
       (snd (trigger_manual_update (manual_update no_data 0 1) False 0 0 fresh_state)))) \<and>
   total_seconds (31000000 - 29000000) < 30 \<and>
   \<not> rejected (fst (trigger_manual_update (manual_update no_data 31000000 1) False 31000000 31000000
       (snd (trigger_manual_update (manual_update no_data 29000000 1) False 29000000 29000000
         (snd (trigger_manual_update (manual_update no_data 0 1) False 0 0 fresh_state))))))"
  by code_simp

text \<open>
  C10. A manual update request that is not rejected, forced or not, stores the time of
  the request as the cooldown timestamp, whether the update then returns or raises; a
  request with the force flag always does. A rejected request leaves the state as it
  was. After a request that was not rejected, a request without the force flag that is
  checked less than 30 seconds after the stored time is rejected.
\<close>

theorem manual_update_starts_cooldown:
  "(\<not> rejected (fst (trigger_manual_update run force now_check now_update s)) \<longrightarrow>
      last_manual_update (snd (trigger_manual_update run force now_check now_update s))
        = Some now_update) \<and>
   last_manual_update (snd (trigger_manual_update run True now_check now_update s))
     = Some now_update \<and>
   (\<not> rejected (fst (trigger_manual_update run force now_check now_update s)) \<and>
    fst (run (database s)) = Inl e \<longrightarrow>
      fst (trigger_manual_update run force now_check now_update s) = HTTP_500 e \<and>
      last_manual_update (snd (trigger_manual_update run force now_check now_update s))
        = Some now_update) \<and>
   (rejected (fst (trigger_manual_update run force now_check now_update s)) \<longrightarrow>
      snd (trigger_manual_update run force now_check now_update s) = s) \<and>
   (\<not> rejected (fst (trigger_manual_update run force now_check now_update s)) \<and>
    total_seconds (check2 - now_update) < 30 \<longrightarrow>
      rejected (fst (trigger_manual_update run2 False check2 update2
                       (snd (trigger_manual_update run force now_check now_update s)))))"
proof (intro conjI impI)
  assume "\<not> rejected (fst (trigger_manual_update run force now_check now_update s))"
  then show "last_manual_update (snd (trigger_manual_update run force now_check now_update s))
        = Some now_update"
    by (rule trigger_accepted_sets)
next
  show "last_manual_update (snd (trigger_manual_update run True now_check now_update s))
     = Some now_update"
    by (rule trigger_accepted_sets [OF trigger_forced])
next
  assume a: "\<not> rejected (fst (trigger_manual_update run force now_check now_update s)) \<and>
    fst (run (database s)) = Inl e"
  then show "fst (trigger_manual_update run force now_check now_update s) = HTTP_500 e"
    by (auto simp: trigger_manual_update_def rejected_def Let_def
             split: option.splits prod.splits sum.splits if_splits)
  from a show "last_manual_update (snd (trigger_manual_update run force now_check now_update s))
        = Some now_update"
    using trigger_accepted_sets by blast
next
  assume "rejected (fst (trigger_manual_update run force now_check now_update s))"
  then show "snd (trigger_manual_update run force now_check now_update s) = s"
    by (rule trigger_rejected_keeps)
next
  assume a: "\<not> rejected (fst (trigger_manual_update run force now_check now_update s)) \<and>
    total_seconds (check2 - now_update) < 30"
  then have "trigger_manual_update run2 False check2 update2
          (snd (trigger_manual_update run force now_check now_update s))
        = (HTTP_429 (py_int (30 - total_seconds (check2 - now_update))),
           snd (trigger_manual_update run force now_check now_update s))"
    using trigger_rejects [OF trigger_accepted_sets] by blast
  then show "rejected (fst (trigger_manual_update run2 False check2 update2
                       (snd (trigger_manual_update run force now_check now_update s))))"
    by (simp add: rejected_def)
qed

text \<open>
  A first update that raises, on a fresh application, answers with status 500 and stores
  its time; a request 10 seconds later without the force flag is rejected. A forced
  request 10 seconds after that first one stores its own time, and a rejected request
  changes nothing.
\<close>

theorem manual_update_starts_cooldown_witness:
  "fst (trigger_manual_update (\<lambda>d. (Inl ''database is locked'', d)) False 0 0 fresh_state)
     = HTTP_500 ''database is locked'' \<and>
   last_manual_update
     (snd (trigger_manual_update (\<lambda>d. (Inl ''database is locked'', d)) False 0 0 fresh_state))
     = Some 0 \<and>
   rejected (fst (trigger_manual_update (manual_update no_data 10000000 1) False 10000000 10000000
       (snd (trigger_manual_update (\<lambda>d. (Inl ''database is locked'', d)) False 0 0 fresh_state)))) \<and>
   snd (trigger_manual_update (manual_update no_data 10000000 1) False 10000000 10000000
       (snd (trigger_manual_update (\<lambda>d. (Inl ''database is locked'', d)) False 0 0 fresh_state)))
     = snd (trigger_manual_update (\<lambda>d. (Inl ''database is locked'', d)) False 0 0 fresh_state) \<and>
   last_manual_update
     (snd (trigger_manual_update (manual_update no_data 10000000 1) True 10000000 10000000
       (snd (trigger_manual_update (\<lambda>d. (Inl ''database is locked'', d)) False 0 0 fresh_state))))
     = Some 10000000"
proof -
  let ?fail = "\<lambda>d :: db. (Inl ''database is locked'' :: string + update_result, d)"
  let ?s1 = "snd (trigger_manual_update ?fail False 0 0 fresh_state)"
  let ?run = "manual_update no_data 10000000 1"
  have a: "\<not> rejected (fst (trigger_manual_update ?fail False 0 0 fresh_state))"
    by (rule trigger_fresh) (simp add: fresh_state_def)
  have f: "fst (?fail (database fresh_state)) = Inl ''database is locked''" by simp
  have t: "total_seconds (10000000 - 0) < 30" by (simp add: total_seconds_def)
  note th1 = manual_update_starts_cooldown [of ?fail False 0 0 fresh_state
      "''database is locked''" 10000000 ?run 10000000]
  from th1 a f t have 1: "fst (trigger_manual_update ?fail False 0 0 fresh_state)
       = HTTP_500 ''database is locked''"
    and 2: "last_manual_update ?s1 = Some 0"
    and 3: "rejected (fst (trigger_manual_update ?run False 10000000 10000000 ?s1))"
    by blast+
  note th2 = manual_update_starts_cooldown [of ?run False 10000000 10000000 ?s1]
  from th2 3 have 4: "snd (trigger_manual_update ?run False 10000000 10000000 ?s1) = ?s1"
    by blast
  note th3 = manual_update_starts_cooldown [of ?run True 10000000 10000000 ?s1]
  from th3 have 5: "last_manual_update
     (snd (trigger_manual_update ?run True 10000000 10000000 ?s1)) = Some 10000000"
    by blast
  from 1 2 3 4 5 show ?thesis by blast
qed

section \<open>The per-date accumulator and the forward fill\<close>

lemma map_of_set_item:
  "map_of (set_item d key v data) =
     (map_of data)(d \<mapsto> AList.update key v (case map_of data d of None \<Rightarrow> [] | Some vals \<Rightarrow> vals))"
  by (auto simp: set_item_def Let_def AList.map_of_map_entry AList.update_conv' fun_eq_iff
           split: option.splits)

lemma keys_set_item: "fst ` set (set_item d key v data) = insert d (fst ` set data)"
  unfolding dom_map_of_conv_image_fst [symmetric] map_of_set_item by simp

lemma distinct_set_item:
  "distinct (map fst data) \<Longrightarrow> distinct (map fst (set_item d key v data))"
  by (simp add: set_item_def Let_def AList.distinct_map_entry AList.distinct_update)

lemma lookup_set_item:
  "lookup_value (set_item d key v data) d' k =
     (if d' = d \<and> k = key then Some v else lookup_value data d' k)"
  by (auto simp: lookup_value_def map_of_set_item AList.update_conv' split: option.splits)

lemma distinct_process_observations:
  "distinct (map fst data) \<Longrightarrow> distinct (map fst (process_observations key obs data))"
  by (induction obs arbitrary: data)
     (auto simp: distinct_set_item split: date_field.splits value_field.splits)

lemma distinct_add_annual_records:
  "distinct (map fst data) \<Longrightarrow> distinct (map fst (add_annual_records items data))"
  by (induction items arbitrary: data) (auto simp: distinct_set_item)

lemma keys_forward_fill: "map fst (forward_fill latest data) = map fst data"
  by (cases latest) (auto simp: forward_fill_def)

lemma distinct_build_data_by_date:
  "distinct (map fst (build_data_by_date fed infl gdp glob))"
  by (simp add: build_data_by_date_def collect_points_def keys_forward_fill Let_def
        distinct_add_annual_records distinct_process_observations)

lemma map_of_forward_fill:
  "map_of (forward_fill (Some v) data) d =
     map_option (\<lambda>vals. if map_of vals GlobalGdpGrowth = None
                         then AList.update GlobalGdpGrowth v vals else vals) (map_of data d)"
  by (induction data) (auto simp: forward_fill_def)

lemma lookup_forward_fill:
  "lookup_value (forward_fill latest data) d k =
     (if k = GlobalGdpGrowth \<and> d \<in> fst ` set data
      then (case lookup_value data d GlobalGdpGrowth of Some own \<Rightarrow> Some own | None \<Rightarrow> latest)
      else lookup_value data d k)"
proof (cases latest)
  case None
  then show ?thesis
    by (auto simp: forward_fill_def lookup_value_def split: option.splits)
next
  case (Some v)
  show ?thesis
  proof (cases "map_of data d")
    case None
    then have "d \<notin> fst ` set data" by (simp add: map_of_eq_None_iff)
    with None Some show ?thesis
      by (simp add: lookup_value_def map_of_forward_fill)
  next
    case (Some vals)
    then have "d \<in> fst ` set data" by (metis map_of_eq_None_iff option.distinct(1))
    with Some \<open>latest = Some v\<close> show ?thesis
      by (auto simp: lookup_value_def map_of_forward_fill AList.update_conv' split: option.splits)
  qed
qed

lemma lookup_add_annual_records:
  "lookup_value (add_annual_records items data) d k =
     (if k = GlobalGdpGrowth \<and>
         filter (\<lambda>i. 1 \<le> year i \<and> year i \<le> 9999 \<and> (year i, 12, 31) = d) items \<noteq> []
      then Some (gdp_value (last (filter (\<lambda>i. 1 \<le> year i \<and> year i \<le> 9999
                                               \<and> (year i, 12, 31) = d) items)))
      else lookup_value data d k)"
  by (induction items arbitrary: data) (auto simp: lookup_set_item)

lemma latest_gdp_value_max:
  assumes "glob \<noteq> []"
  shows "\<exists>p \<in> set glob. latest_gdp_value glob = Some (gdp_value p)
           \<and> (\<forall>q \<in> set glob. year q \<le> year p)"
proof -
  let ?s = "sort_key (\<lambda>x. - year x) glob"
  have "?s \<noteq> []" using assms by (metis length_sort length_0_conv)
  then obtain first rest where s: "?s = first # rest" by (cases ?s) auto
  have "sorted (map (\<lambda>x. - year x) ?s)" by simp
  then have "\<forall>q \<in> set ?s. - year first \<le> - year q" unfolding s by auto
  then have m: "\<forall>q \<in> set glob. year q \<le> year first" by simp
  have "first \<in> set ?s" unfolding s by simp
  then have f: "first \<in> set glob" by simp
  have "latest_gdp_value glob = Some (gdp_value first)"
    using assms s by (simp add: latest_gdp_value_def Let_def)
  with f m show ?thesis by blast
qed

lemma latest_gdp_value_Nil: "latest_gdp_value [] = None"
  by (simp add: latest_gdp_value_def)

text \<open>
  C4. The forward fill keeps the dates of the accumulator. A date of the accumulator that
  has no global GDP value receives the latest one, which is the value of a fetched annual
  point of maximal year; a date that has a value keeps it, and no other key changes. The
  31 December of an annual point among the last five carries that point's own value.
\<close>

theorem forward_fill_latest_gdp:
  "map fst (build_data_by_date fed infl gdp glob) = map fst (collect_points fed infl gdp glob) \<and>
   (\<forall>d \<in> fst ` set (collect_points fed infl gdp glob).
      lookup_value (build_data_by_date fed infl gdp glob) d GlobalGdpGrowth =
        (case lookup_value (collect_points fed infl gdp glob) d GlobalGdpGrowth of
           Some own \<Rightarrow> Some own
         | None \<Rightarrow> latest_gdp_value glob)) \<and>
   (\<forall>d k. k \<noteq> GlobalGdpGrowth \<longrightarrow>
      lookup_value (build_data_by_date fed infl gdp glob) d k =
        lookup_value (collect_points fed infl gdp glob) d k) \<and>
   (glob \<noteq> [] \<longrightarrow>
      (\<exists>p \<in> set glob. latest_gdp_value glob = Some (gdp_value p) \<and>
                       (\<forall>q \<in> set glob. year q \<le> year p))) \<and>
   (\<forall>item \<in> set (last_n 5 glob).
      1 \<le> year item \<and> year item \<le> 9999 \<and>
      (\<forall>q \<in> set (last_n 5 glob). year q = year item \<longrightarrow> gdp_value q = gdp_value item) \<longrightarrow>
      lookup_value (build_data_by_date fed infl gdp glob) (year item, 12, 31) GlobalGdpGrowth
        = Some (gdp_value item))"
proof (intro conjI ballI allI impI)
  show "map fst (build_data_by_date fed infl gdp glob) = map fst (collect_points fed infl gdp glob)"
    by (simp add: build_data_by_date_def keys_forward_fill)
next
  fix d assume "d \<in> fst ` set (collect_points fed infl gdp glob)"
  then show "lookup_value (build_data_by_date fed infl gdp glob) d GlobalGdpGrowth =
        (case lookup_value (collect_points fed infl gdp glob) d GlobalGdpGrowth of
           Some own \<Rightarrow> Some own
         | None \<Rightarrow> latest_gdp_value glob)"
    by (simp add: build_data_by_date_def lookup_forward_fill)
next
  fix d k assume "k \<noteq> GlobalGdpGrowth"
  then show "lookup_value (build_data_by_date fed infl gdp glob) d k =
        lookup_value (collect_points fed infl gdp glob) d k"
    by (simp add: build_data_by_date_def lookup_forward_fill)
next
  assume "glob \<noteq> []"
  then show "\<exists>p \<in> set glob. latest_gdp_value glob = Some (gdp_value p) \<and>
                       (\<forall>q \<in> set glob. year q \<le> year p)"
    by (rule latest_gdp_value_max)
next
  fix item
  assume i: "item \<in> set (last_n 5 glob)"
    and a: "1 \<le> year item \<and> year item \<le> 9999 \<and>
      (\<forall>q \<in> set (last_n 5 glob). year q = year item \<longrightarrow> gdp_value q = gdp_value item)"
  let ?D = "(year item, 12 :: nat, 31 :: nat)"
  let ?ms = "filter (\<lambda>i. 1 \<le> year i \<and> year i \<le> 9999 \<and> (year i, 12, 31) = ?D) (last_n 5 glob)"
  from i a have m: "item \<in> set ?ms" by simp
  have ne: "?ms \<noteq> []"
  proof
    assume e: "?ms = []"
    have "item \<in> set []" using m unfolding e .
    then show False by simp
  qed
  then have "last ?ms \<in> set ?ms" by (rule last_in_set)
  then have "last ?ms \<in> set (last_n 5 glob)" "year (last ?ms) = year item" by auto
  with a have v: "gdp_value (last ?ms) = gdp_value item" by blast
  have c: "lookup_value (collect_points fed infl gdp glob) ?D GlobalGdpGrowth
             = Some (gdp_value item)"
    using ne v by (simp add: collect_points_def Let_def lookup_add_annual_records)
  show "lookup_value (build_data_by_date fed infl gdp glob) ?D GlobalGdpGrowth
        = Some (gdp_value item)"
    using c by (simp add: build_data_by_date_def lookup_forward_fill)
qed

text \<open>
  The annual points 2022: 2.5 and 2023: 3.0 with rates dated 1 June 2022 and 1 June 2023:
  both June rows receive 3.0, the row of 31 December 2022 keeps 2.5.
\<close>

theorem forward_fill_latest_gdp_witness:
  "lookup_value (build_data_by_date example_fed_rates [] [] example_global_gdp)
      (2022, 6, 1) GlobalGdpGrowth = Some 3 \<and>
   lookup_value (build_data_by_date example_fed_rates [] [] example_global_gdp)
      (2023, 6, 1) GlobalGdpGrowth = Some 3 \<and>
   lookup_value (build_data_by_date example_fed_rates [] [] example_global_gdp)
      (2022, 12, 31) GlobalGdpGrowth = Some (5 / 2) \<and>
   lookup_value (build_data_by_date example_fed_rates [] [] example_global_gdp)
      (2022, 6, 1) FederalFundsRate = Some 5 \<and>
   (\<exists>p \<in> set example_global_gdp.
      latest_gdp_value example_global_gdp = Some (gdp_value p) \<and>
      (\<forall>q \<in> set example_global_gdp. year q \<le> year p))"
proof -
  note th = forward_fill_latest_gdp [of example_fed_rates "[]" "[]" example_global_gdp]
  let ?c = "collect_points example_fed_rates [] [] example_global_gdp"
  have k1: "(2022, 6, 1) \<in> fst ` set ?c" and k2: "(2023, 6, 1) \<in> fst ` set ?c"
    by code_simp+
  have n1: "lookup_value ?c (2022, 6, 1) GlobalGdpGrowth = None"
    and n2: "lookup_value ?c (2023, 6, 1) GlobalGdpGrowth = None"
    and f1: "lookup_value ?c (2022, 6, 1) FederalFundsRate = Some 5"
    by code_simp+
  have l: "latest_gdp_value example_global_gdp = Some 3" by code_simp
  let ?item = "\<lparr>year = 2022, gdp_value = 5 / 2\<rparr> :: gdp_point"
  have i: "?item \<in> set (last_n 5 example_global_gdp)"
    by (simp add: last_n_def example_global_gdp_def)
  have u: "1 \<le> year ?item \<and> year ?item \<le> 9999 \<and>
      (\<forall>q \<in> set (last_n 5 example_global_gdp). year q = year ?item \<longrightarrow>
         gdp_value q = gdp_value ?item)"
    by (simp add: last_n_def example_global_gdp_def)
  note fill = th [THEN conjunct2, THEN conjunct1]
  note other = th [THEN conjunct2, THEN conjunct2, THEN conjunct1]
  note exact = th [THEN conjunct2, THEN conjunct2, THEN conjunct2, THEN conjunct2]
  have 1: "lookup_value (build_data_by_date example_fed_rates [] [] example_global_gdp)
      (2022, 6, 1) GlobalGdpGrowth = Some 3"
    using bspec [OF fill k1] unfolding n1 l by simp
  have 2: "lookup_value (build_data_by_date example_fed_rates [] [] example_global_gdp)
      (2023, 6, 1) GlobalGdpGrowth = Some 3"
    using bspec [OF fill k2] unfolding n2 l by simp
  have 3: "lookup_value (build_data_by_date example_fed_rates [] [] example_global_gdp)
      (year ?item, 12, 31) GlobalGdpGrowth = Some (gdp_value ?item)"
    using bspec [OF exact i] u by (rule mp)
  have 4: "lookup_value (build_data_by_date example_fed_rates [] [] example_global_gdp)
      (2022, 6, 1) FederalFundsRate = Some 5"
    using other [rule_format, of FederalFundsRate "(2022, 6, 1)"] f1 by simp
  have g: "example_global_gdp \<noteq> []" by (simp add: example_global_gdp_def)
  note latest = th [THEN conjunct2, THEN conjunct2, THEN conjunct2, THEN conjunct1]
  have 5: "\<exists>p \<in> set example_global_gdp.
      latest_gdp_value example_global_gdp = Some (gdp_value p) \<and>
      (\<forall>q \<in> set example_global_gdp. year q \<le> year p)"
    using latest g by (rule mp)
  from 1 2 3 4 5 show ?thesis by simp
qed

section \<open>The indicator upsert\<close>

lemma getattr_setattr:
  "getattr (setattr r key v) k = (if k = key then Some v else getattr r k)"
  by (cases key; cases k) simp_all

lemma base_setattr:
  "date (setattr r key v) = date r"
  "created_at (setattr r key v) = created_at r"
  "updated_at (setattr r key v) = updated_at r"
  by (cases key; simp)+

lemma setattr_updated_at:
  "setattr (r\<lparr>updated_at := t\<rparr>) key v = (setattr r key v)\<lparr>updated_at := t\<rparr>"
  by (cases key) simp_all

lemma set_values_Cons:
  "set_values ((key, v) # vals) r = set_values vals (setattr r key v)"
  by (simp add: set_values_def)

lemma set_values_Nil: "set_values [] r = r"
  by (simp add: set_values_def)

lemma base_set_values:
  "date (set_values vals r) = date r"
  "created_at (set_values vals r) = created_at r"
  "updated_at (set_values vals r) = updated_at r"
  by (induction vals arbitrary: r; auto simp: set_values_Nil set_values_Cons base_setattr)+

lemma set_values_updated_at:
  "set_values vals (r\<lparr>updated_at := t\<rparr>) = (set_values vals r)\<lparr>updated_at := t\<rparr>"
  by (induction vals arbitrary: r) (auto simp: set_values_Nil set_values_Cons setattr_updated_at)

lemma getattr_set_values:
  "getattr (set_values vals r) k =
     (case map_of (rev vals) k of Some v \<Rightarrow> Some v | None \<Rightarrow> getattr r k)"
proof (induction vals arbitrary: r)
  case Nil
  then show ?case by (simp add: set_values_Nil)
next
  case (Cons p vals)
  obtain key v where p: "p = (key, v)" by (cases p)
  show ?case
    unfolding p set_values_Cons Cons.IH
    by (auto simp: map_add_def getattr_setattr split: option.splits)
qed


lemma indicator_eqI:
  fixes r r' :: economic_indicator
  assumes "date r = date r'" "created_at r = created_at r'" "updated_at r = updated_at r'"
    and "\<And>k. getattr r k = getattr r' k"
  shows "r = r'"
proof -
  have "global_gdp_growth r = global_gdp_growth r'" using assms(4) [of GlobalGdpGrowth] by simp
  moreover have "us_gdp_growth r = us_gdp_growth r'" using assms(4) [of UsGdpGrowth] by simp
  moreover have "federal_funds_rate r = federal_funds_rate r'"
    using assms(4) [of FederalFundsRate] by simp
  moreover have "inflation_rate r = inflation_rate r'" using assms(4) [of InflationRate] by simp
  ultimately show ?thesis using assms(1-3) by simp
qed

lemma set_values_idem: "set_values vals (set_values vals r) = set_values vals r"
  by (rule indicator_eqI) (auto simp: base_set_values getattr_set_values split: option.splits)


lemma find_upsert_other:
  "d' \<noteq> d \<Longrightarrow>
   find (\<lambda>r. date r = d') (upsert_indicator now d vals rows) = find (\<lambda>r. date r = d') rows"
  by (induction rows) (auto simp: new_indicator_def base_set_values)

lemma find_upsert_same:
  "find (\<lambda>r. date r = d) (upsert_indicator now d vals rows) =
     Some (case find (\<lambda>r. date r = d) rows of
             Some existing \<Rightarrow> (set_values vals existing)\<lparr>updated_at := now\<rparr>
           | None \<Rightarrow> new_indicator now d vals)"
  by (induction rows) (auto simp: new_indicator_def base_set_values)




lemma upsert_settled_erase:
  "find (\<lambda>r. date r = d) rows = Some r \<Longrightarrow> set_values vals r = r \<Longrightarrow>
   map (\<lambda>r. r\<lparr>updated_at := t\<rparr>) (upsert_indicator now d vals rows)
     = map (\<lambda>r. r\<lparr>updated_at := t\<rparr>) rows"
  by (induction rows) (auto split: if_splits)

lemma settled_after_upsert:
  "\<exists>r. find (\<lambda>r. date r = d) (upsert_indicator now d vals rows) = Some r \<and> set_values vals r = r"
  unfolding find_upsert_same
  by (auto simp: new_indicator_def set_values_idem set_values_updated_at split: option.splits)

lemma find_loop_other:
  "d \<notin> fst ` set data \<Longrightarrow>
   find (\<lambda>r. date r = d) (fst (upsert_loop now data rows c)) = find (\<lambda>r. date r = d) rows"
proof (induction data arbitrary: rows c)
  case Nil
  then show ?case by simp
next
  case (Cons p data)
  obtain d' vals where p: "p = (d', vals)" by (cases p)
  from Cons.prems p have ne: "d \<noteq> d'" and rest: "d \<notin> fst ` set data" by auto
  show ?case
    unfolding p using Cons.IH [OF rest] find_upsert_other [OF ne] by simp
qed

lemma loop_settles:
  "distinct (map fst data) \<Longrightarrow> (d, vals) \<in> set data \<Longrightarrow>
   \<exists>r. find (\<lambda>r. date r = d) (fst (upsert_loop now data rows c)) = Some r \<and> set_values vals r = r"
proof (induction data arbitrary: rows c)
  case Nil
  then show ?case by simp
next
  case (Cons p data)
  obtain d' vals' where p: "p = (d', vals')" by (cases p)
  from Cons.prems p have dist: "distinct (map fst data)" and fresh: "d' \<notin> fst ` set data"
    by auto
  show ?case
  proof (cases "(d, vals) = (d', vals')")
    case True
    then have "find (\<lambda>r. date r = d) (fst (upsert_loop now (p # data) rows c))
           = find (\<lambda>r. date r = d) (upsert_indicator now d vals rows)"
      unfolding p using find_loop_other [OF fresh] by simp
    then show ?thesis using settled_after_upsert [of d now vals rows] by simp
  next
    case False
    with Cons.prems p have "(d, vals) \<in> set data" by auto
    from Cons.IH [OF dist this] show ?thesis unfolding p by simp
  qed
qed

lemma loop_settled_erase:
  "distinct (map fst data) \<Longrightarrow>
   \<forall>(d, vals) \<in> set data. \<exists>r. find (\<lambda>r. date r = d) rows = Some r \<and> set_values vals r = r \<Longrightarrow>
   map (\<lambda>r. r\<lparr>updated_at := t\<rparr>) (fst (upsert_loop now data rows c))
     = map (\<lambda>r. r\<lparr>updated_at := t\<rparr>) rows"
proof (induction data arbitrary: rows c)
  case Nil
  then show ?case by simp
next
  case (Cons p data)
  obtain d vals where p: "p = (d, vals)" by (cases p)
  from Cons.prems p have dist: "distinct (map fst data)" and fresh: "d \<notin> fst ` set data"
    by auto
  from Cons.prems(2) p obtain r where r: "find (\<lambda>r. date r = d) rows = Some r"
    "set_values vals r = r" by auto
  let ?rows = "upsert_indicator now d vals rows"
  have e: "map (\<lambda>r. r\<lparr>updated_at := t\<rparr>) ?rows = map (\<lambda>r. r\<lparr>updated_at := t\<rparr>) rows"
    by (rule upsert_settled_erase [OF r])
  have "\<forall>(d', vals') \<in> set data.
          \<exists>r. find (\<lambda>r. date r = d') ?rows = Some r \<and> set_values vals' r = r"
  proof (clarify)
    fix d' vals' assume m: "(d', vals') \<in> set data"
    then have "d' \<noteq> d" using fresh by force
    then have "find (\<lambda>r. date r = d') ?rows = find (\<lambda>r. date r = d') rows"
      by (rule find_upsert_other)
    moreover from Cons.prems(2) m
    have "\<exists>r. find (\<lambda>r. date r = d') rows = Some r \<and> set_values vals' r = r" by auto
    ultimately show "\<exists>r. find (\<lambda>r. date r = d') ?rows = Some r \<and> set_values vals' r = r"
      by simp
  qed
  from Cons.IH [OF dist this] e show ?case unfolding p by simp
qed

lemma upsert_loop_idempotent:
  assumes "distinct (map fst data)"
  shows "map (\<lambda>r. r\<lparr>updated_at := t\<rparr>)
           (fst (upsert_loop now2 data (fst (upsert_loop now1 data rows c1)) c2))
       = map (\<lambda>r. r\<lparr>updated_at := t\<rparr>) (fst (upsert_loop now1 data rows c1))"
proof (rule loop_settled_erase [OF assms])
  show "\<forall>(d, vals) \<in> set data.
          \<exists>r. find (\<lambda>r. date r = d) (fst (upsert_loop now1 data rows c1)) = Some r
               \<and> set_values vals r = r"
    using loop_settles [OF assms] by blast
qed

lemma getattr_updated_at: "getattr (r\<lparr>updated_at := t\<rparr>) k = getattr r k"
  by (cases k) simp_all



lemma step_table:
  "calculate_cpi_yoy_change cpi = Inr inflation_data \<Longrightarrow>
   snd (update_economic_indicators now fed gdp cpi glob d) =
     d\<lparr>economic_indicators_table :=
         fst (upsert_loop now (build_data_by_date fed inflation_data gdp glob)
                (economic_indicators_table d) 0)\<rparr>"
  by (simp add: update_economic_indicators_def Let_def case_prod_beta)

lemma step_idempotent:
  "map (\<lambda>r. r\<lparr>updated_at := t\<rparr>)
     (economic_indicators_table
        (snd (update_economic_indicators now2 fed gdp cpi glob
               (snd (update_economic_indicators now1 fed gdp cpi glob d)))))
   = map (\<lambda>r. r\<lparr>updated_at := t\<rparr>)
       (economic_indicators_table (snd (update_economic_indicators now1 fed gdp cpi glob d)))"
proof (cases "calculate_cpi_yoy_change cpi")
  case (Inl e)
  then show ?thesis by (simp add: update_economic_indicators_def)
next
  case (Inr inflation_data)
  let ?data = "build_data_by_date fed inflation_data gdp glob"
  have "map (\<lambda>r. r\<lparr>updated_at := t\<rparr>)
           (fst (upsert_loop now2 ?data
                  (fst (upsert_loop now1 ?data (economic_indicators_table d) 0)) 0))
       = map (\<lambda>r. r\<lparr>updated_at := t\<rparr>)
           (fst (upsert_loop now1 ?data (economic_indicators_table d) 0))"
    by (rule upsert_loop_idempotent [OF distinct_build_data_by_date])
  then show ?thesis
    unfolding step_table [OF Inr] by simp
qed

text \<open>
  C5. Running the upsert loop a second time over the same dictionary of dates (its keys
  are distinct) leaves the table as the first run left it, up to the column
  \<open>updated_at\<close>: the same number of rows, and in every row the same date, the same
  four indicator values and the same creation time. The same holds for the whole step
  run twice on the same fetched data.
\<close>

theorem indicator_upsert_idempotent:
  "(distinct (map fst data) \<longrightarrow>
      (let rows1 = fst (upsert_loop now1 data rows c1);
           rows2 = fst (upsert_loop now2 data rows1 c2)
       in map (\<lambda>r. r\<lparr>updated_at := t\<rparr>) rows2 = map (\<lambda>r. r\<lparr>updated_at := t\<rparr>) rows1 \<and>
          length rows2 = length rows1 \<and>
          (\<forall>i < length rows1.
             date (rows2 ! i) = date (rows1 ! i) \<and>
             created_at (rows2 ! i) = created_at (rows1 ! i) \<and>
             (\<forall>k. getattr (rows2 ! i) k = getattr (rows1 ! i) k)))) \<and>
   map (\<lambda>r. r\<lparr>updated_at := t\<rparr>)
     (economic_indicators_table
        (snd (update_economic_indicators now2 fed gdp cpi glob
               (snd (update_economic_indicators now1 fed gdp cpi glob d)))))
   = map (\<lambda>r. r\<lparr>updated_at := t\<rparr>)
       (economic_indicators_table (snd (update_economic_indicators now1 fed gdp cpi glob d)))"
proof (intro conjI impI)
  assume dist: "distinct (map fst data)"
  define rows1 where "rows1 = fst (upsert_loop now1 data rows c1)"
  define rows2 where "rows2 = fst (upsert_loop now2 data rows1 c2)"
  have e: "map (\<lambda>r. r\<lparr>updated_at := t\<rparr>) rows2 = map (\<lambda>r. r\<lparr>updated_at := t\<rparr>) rows1"
    unfolding rows2_def rows1_def by (rule upsert_loop_idempotent [OF dist])
  then have len: "length rows2 = length rows1" by (rule map_eq_imp_length_eq)
  have pt: "\<forall>i < length rows1.
             date (rows2 ! i) = date (rows1 ! i) \<and>
             created_at (rows2 ! i) = created_at (rows1 ! i) \<and>
             (\<forall>k. getattr (rows2 ! i) k = getattr (rows1 ! i) k)"
  proof (intro allI impI)
    fix i assume i: "i < length rows1"
    have "map (\<lambda>r. r\<lparr>updated_at := t\<rparr>) rows2 ! i = map (\<lambda>r. r\<lparr>updated_at := t\<rparr>) rows1 ! i"
      using e by simp
    then have q: "(rows2 ! i)\<lparr>updated_at := t\<rparr> = (rows1 ! i)\<lparr>updated_at := t\<rparr>"
      using i len by simp
    have "date ((rows2 ! i)\<lparr>updated_at := t\<rparr>) = date ((rows1 ! i)\<lparr>updated_at := t\<rparr>)"
      "created_at ((rows2 ! i)\<lparr>updated_at := t\<rparr>) = created_at ((rows1 ! i)\<lparr>updated_at := t\<rparr>)"
      "\<And>k. getattr ((rows2 ! i)\<lparr>updated_at := t\<rparr>) k = getattr ((rows1 ! i)\<lparr>updated_at := t\<rparr>) k"
      unfolding q by simp_all
    then show "date (rows2 ! i) = date (rows1 ! i) \<and>
             created_at (rows2 ! i) = created_at (rows1 ! i) \<and>
             (\<forall>k. getattr (rows2 ! i) k = getattr (rows1 ! i) k)"
      by (simp add: getattr_updated_at)
  qed
  from e len pt
  show "let rows1 = fst (upsert_loop now1 data rows c1);
           rows2 = fst (upsert_loop now2 data rows1 c2)
       in map (\<lambda>r. r\<lparr>updated_at := t\<rparr>) rows2 = map (\<lambda>r. r\<lparr>updated_at := t\<rparr>) rows1 \<and>
          length rows2 = length rows1 \<and>
          (\<forall>i < length rows1.
             date (rows2 ! i) = date (rows1 ! i) \<and>
             created_at (rows2 ! i) = created_at (rows1 ! i) \<and>
             (\<forall>k. getattr (rows2 ! i) k = getattr (rows1 ! i) k))"
    unfolding Let_def rows2_def rows1_def by blast
next
  show "map (\<lambda>r. r\<lparr>updated_at := t\<rparr>)
     (economic_indicators_table
        (snd (update_economic_indicators now2 fed gdp cpi glob
               (snd (update_economic_indicators now1 fed gdp cpi glob d)))))
   = map (\<lambda>r. r\<lparr>updated_at := t\<rparr>)
       (economic_indicators_table (snd (update_economic_indicators now1 fed gdp cpi glob d)))"
    by (rule step_idempotent)
qed

text \<open>
  The theorem on the stored row of 1 January 2024 and a dictionary of two dates, and on
  the step with the example series: the second run changes nothing but \<open>updated_at\<close>.
\<close>

theorem indicator_upsert_idempotent_witness:
  "map (\<lambda>r. r\<lparr>updated_at := 0\<rparr>)
     (fst (upsert_loop 9 [((2024, 1, 1), example_values), ((2024, 2, 1), [(InflationRate, 3)])]
        (fst (upsert_loop 7 [((2024, 1, 1), example_values), ((2024, 2, 1), [(InflationRate, 3)])]
               example_rows 0)) 0))
   = map (\<lambda>r. r\<lparr>updated_at := 0\<rparr>)
       (fst (upsert_loop 7 [((2024, 1, 1), example_values), ((2024, 2, 1), [(InflationRate, 3)])]
               example_rows 0)) \<and>
   map (\<lambda>r. r\<lparr>updated_at := 0\<rparr>)
     (economic_indicators_table
        (snd (update_economic_indicators 9 example_fed_rates [] [] example_global_gdp
               (snd (update_economic_indicators 7 example_fed_rates [] [] example_global_gdp
                      empty_db)))))
   = map (\<lambda>r. r\<lparr>updated_at := 0\<rparr>)
       (economic_indicators_table
          (snd (update_economic_indicators 7 example_fed_rates [] [] example_global_gdp
                 empty_db)))"
proof -
  let ?data = "[((2024 :: int, 1 :: nat, 1 :: nat), example_values),
                ((2024, 2, 1), [(InflationRate, 3)])]"
  have dist: "distinct (map fst ?data)" by simp
  note th = indicator_upsert_idempotent [of ?data 7 example_rows 0 9 0 0
      example_fed_rates "[]" "[]" example_global_gdp empty_db]
  from th [THEN conjunct1] dist
  have "let rows1 = fst (upsert_loop 7 ?data example_rows 0);
            rows2 = fst (upsert_loop 9 ?data rows1 0)
        in map (\<lambda>r. r\<lparr>updated_at := 0\<rparr>) rows2 = map (\<lambda>r. r\<lparr>updated_at := 0\<rparr>) rows1 \<and>
           length rows2 = length rows1 \<and>
           (\<forall>i < length rows1.
              date (rows2 ! i) = date (rows1 ! i) \<and>
              created_at (rows2 ! i) = created_at (rows1 ! i) \<and>
              (\<forall>k. getattr (rows2 ! i) k = getattr (rows1 ! i) k))"
    by (rule mp)
  then have 1: "map (\<lambda>r. r\<lparr>updated_at := 0\<rparr>)
     (fst (upsert_loop 9 ?data (fst (upsert_loop 7 ?data example_rows 0)) 0))
   = map (\<lambda>r. r\<lparr>updated_at := 0\<rparr>) (fst (upsert_loop 7 ?data example_rows 0))"
    unfolding Let_def by (rule conjunct1)
  from 1 th [THEN conjunct2] show ?thesis by (rule conjI)
qed



end
